theory Spec2Isabelle
  imports Main "HOL-Library.Sublist"
begin

section \<open>Warp Preview log monitor: a model of \<^verbatim>\<open>warp_log_inspector/warp_monitor.py\<close>\<close>

text \<open>
  The theory follows the Python module from the leaves up: the exceptions that the code can
  meet, characters and the regular expressions of \<^verbatim>\<open>LogParser.PATTERNS\<close>, timestamps,
  \<^verbatim>\<open>LogParser\<close>, the counters and bounded buffers of \<^verbatim>\<open>LogMonitor\<close>, the process table of
  \<^verbatim>\<open>ProcessMonitor\<close>, and the two loops (log tailing, periodic statistics).

  Strings are \<^typ>\<open>string\<close>, that is lists of 8-bit characters, read as the code points
  below 256. On such text the ASCII notions of digit and of letter case used below agree with
  Python's Unicode ones for the (all-ASCII) patterns of the source; text with code points
  from 256 on is outside the model.
\<close>

subsection \<open>Exceptions\<close>

datatype exn = ValueError | IndexError | AttributeError | OSError

subsection \<open>Characters\<close>

definition is_digit :: "char \<Rightarrow> bool" where
  "is_digit c = (c \<in> set ''0123456789'')"

text \<open>\<^verbatim>\<open>str.isspace\<close> on the code points below 256; \<^verbatim>\<open>str.strip()\<close> and \<^verbatim>\<open>\s\<close> use it.\<close>

definition is_space :: "char \<Rightarrow> bool" where
  "is_space c = (c \<in> set [CHR 0x09, CHR 0x0A, CHR 0x0B, CHR 0x0C, CHR 0x0D,
                          CHR 0x1C, CHR 0x1D, CHR 0x1E, CHR 0x1F, CHR '' '',
                          CHR 0x85, CHR 0xA0])"

definition to_lower :: "char \<Rightarrow> char" where
  "to_lower c =
     (case map_of (zip ''ABCDEFGHIJKLMNOPQRSTUVWXYZ'' ''abcdefghijklmnopqrstuvwxyz'') c of
        Some d \<Rightarrow> d
      | None \<Rightarrow> c)"

definition to_upper :: "char \<Rightarrow> char" where
  "to_upper c =
     (case map_of (zip ''abcdefghijklmnopqrstuvwxyz'' ''ABCDEFGHIJKLMNOPQRSTUVWXYZ'') c of
        Some d \<Rightarrow> d
      | None \<Rightarrow> c)"

text \<open>\<^verbatim>\<open>str.strip()\<close>: leading and trailing whitespace removed.\<close>

definition strip :: "string \<Rightarrow> string" where
  "strip s = rev (dropWhile is_space (rev (dropWhile is_space s)))"

subsection \<open>Regular expressions as Python's \<^verbatim>\<open>re\<close> runs them\<close>

text \<open>
  The patterns of the source use single characters and character classes, concatenation,
  alternation, \<^verbatim>\<open>?\<close> on a group, \<^verbatim>\<open>+\<close> on a character class, counted repetition and
  capturing groups. \<^verbatim>\<open>re\<close> is a backtracking matcher: alternatives are tried from left to
  right, \<^verbatim>\<open>?\<close> and \<^verbatim>\<open>+\<close> are greedy, and the first way to match wins. \<open>rx_match\<close> returns
  all the ways in which a pattern matches a prefix of the text, in that order of preference,
  each with the captured groups and the text left over; the head of the list is the match
  that \<^verbatim>\<open>re\<close> reports. The flag \<open>ic\<close> is \<^verbatim>\<open>re.IGNORECASE\<close>.
\<close>

datatype atom = Ch char | Digit | Space | OneOf "char list" | NoneOf "char list"

fun atom_match :: "bool \<Rightarrow> atom \<Rightarrow> char \<Rightarrow> bool" where
  "atom_match ic (Ch c) d = (d = c \<or> (ic \<and> to_lower d = to_lower c))"
| "atom_match ic Digit d = is_digit d"
| "atom_match ic Space d = is_space d"
| "atom_match ic (OneOf cs) d =
     (d \<in> set cs \<or> (ic \<and> to_lower d \<in> set (map to_lower cs)))"
| "atom_match ic (NoneOf cs) d =
     (\<not> (d \<in> set cs \<or> (ic \<and> to_lower d \<in> set (map to_lower cs))))"

datatype rx = Eps | Chr atom | Cat rx rx | Alt rx rx | Opt rx | Plus atom | Grp rx

fun rx_match :: "bool \<Rightarrow> rx \<Rightarrow> string \<Rightarrow> (string list \<times> string) list" where
  "rx_match ic Eps s = [([], s)]"
| "rx_match ic (Chr a) s =
     (case s of [] \<Rightarrow> [] | c # cs \<Rightarrow> if atom_match ic a c then [([], cs)] else [])"
| "rx_match ic (Cat r1 r2) s =
     concat (map (\<lambda>(g1, s1). map (\<lambda>(g2, s2). (g1 @ g2, s2)) (rx_match ic r2 s1))
                 (rx_match ic r1 s))"
| "rx_match ic (Alt r1 r2) s = rx_match ic r1 s @ rx_match ic r2 s"
| "rx_match ic (Opt r) s = rx_match ic r s @ [([], s)]"
| "rx_match ic (Plus a) s =
     map (\<lambda>k. ([], drop k s)) (rev [1 ..< Suc (length (takeWhile (atom_match ic a) s))])"
| "rx_match ic (Grp r) s =
     map (\<lambda>(g, s'). (take (length s - length s') s # g, s')) (rx_match ic r s)"

text \<open>
  \<^verbatim>\<open>pattern.search(s)\<close>: the match at the leftmost position that has one. The result is the
  text before the match, the groups (\<^verbatim>\<open>group(1)\<close> first) and the text after the match.
\<close>

fun rx_search :: "bool \<Rightarrow> rx \<Rightarrow> string \<Rightarrow> (string \<times> string list \<times> string) option" where
  "rx_search ic r [] =
     (case rx_match ic r [] of [] \<Rightarrow> None | (g, rest) # _ \<Rightarrow> Some ([], g, rest))"
| "rx_search ic r (c # cs) =
     (case rx_match ic r (c # cs) of
        (g, rest) # _ \<Rightarrow> Some ([], g, rest)
      | [] \<Rightarrow> (case rx_search ic r cs of
                 None \<Rightarrow> None
               | Some (pre, g, rest) \<Rightarrow> Some (c # pre, g, rest)))"

text \<open>
  \<^verbatim>\<open>re.sub(pattern, '', s)\<close>: every non-overlapping match, found from left to right, is
  deleted. The patterns of the source match no empty text; for a pattern that does, the last
  branch steps over one character, so that the function is total.
\<close>

function rx_sub_empty :: "bool \<Rightarrow> rx \<Rightarrow> string \<Rightarrow> string" where
  "rx_sub_empty ic r s =
     (case rx_search ic r s of
        None \<Rightarrow> s
      | Some (pre, g, rest) \<Rightarrow>
          if length rest < length s then pre @ rx_sub_empty ic r rest
          else (case s of [] \<Rightarrow> [] | c # cs \<Rightarrow> c # rx_sub_empty ic r cs))"
  by pat_completeness auto
termination
  by (relation "measure (\<lambda>(ic, r, s). length s)") auto

text \<open>Builders for the pattern text: a literal word, \<^verbatim>\<open>r{n}\<close>, a sequence, \<^verbatim>\<open>a|b|c\<close>.\<close>

fun lit :: "string \<Rightarrow> rx" where
  "lit [] = Eps"
| "lit [c] = Chr (Ch c)"
| "lit (c # cs) = Cat (Chr (Ch c)) (lit cs)"

fun rep :: "nat \<Rightarrow> rx \<Rightarrow> rx" where
  "rep 0 r = Eps"
| "rep (Suc 0) r = r"
| "rep (Suc n) r = Cat r (rep n r)"

text \<open>\<^verbatim>\<open>r{1,n}\<close>, greedy.\<close>

fun rep_upto :: "nat \<Rightarrow> rx \<Rightarrow> rx" where
  "rep_upto 0 r = Eps"
| "rep_upto (Suc 0) r = r"
| "rep_upto (Suc n) r = Cat r (Opt (rep_upto n r))"

fun cats :: "rx list \<Rightarrow> rx" where
  "cats [] = Eps"
| "cats [r] = r"
| "cats (r # rs) = Cat r (cats rs)"

fun alts :: "rx list \<Rightarrow> rx" where
  "alts [] = Eps"
| "alts [r] = r"
| "alts (r # rs) = Alt r (alts rs)"

subsection \<open>\<^verbatim>\<open>LogParser.PATTERNS\<close>\<close>

definition d2 :: rx where
  "d2 = rep 2 (Chr Digit)"

text \<open>\<^verbatim>\<open>(\d{4}-\d{2}-\d{2}[T ]\d{2}:\d{2}:\d{2}(?:\.\d{3})?(?:Z|[+-]\d{2}:\d{2})?)\<close>\<close>

definition pat_timestamp :: rx where
  "pat_timestamp =
     Grp (cats [rep 4 (Chr Digit), lit ''-'', d2, lit ''-'', d2, Chr (OneOf ''T ''),
                d2, lit '':'', d2, lit '':'', d2,
                Opt (Cat (lit ''.'') (rep 3 (Chr Digit))),
                Opt (Alt (lit ''Z'') (cats [Chr (OneOf ''+-''), d2, lit '':'', d2]))])"

text \<open>\<^verbatim>\<open>\[(DEBUG|INFO|WARN|ERROR|TRACE|FATAL)\]\<close>\<close>

definition level_names :: "string list" where
  "level_names = [''DEBUG'', ''INFO'', ''WARN'', ''ERROR'', ''TRACE'', ''FATAL'']"

definition pat_level :: rx where
  "pat_level = cats [lit ''['', Grp (alts (map lit level_names)), lit '']'']"

text \<open>\<^verbatim>\<open>\[([^\]]+)\]\<close>\<close>

definition pat_component :: rx where
  "pat_component = cats [lit ''['', Grp (Plus (NoneOf '']'')), lit '']'']"

text \<open>\<^verbatim>\<open>\[(\d+):([^\]]+)\]\<close>\<close>

definition pat_pid_thread :: rx where
  "pat_pid_thread =
     cats [lit ''['', Grp (Plus Digit), lit '':'', Grp (Plus (NoneOf '']'')), lit '']'']"

text \<open>\<^verbatim>\<open>(error|exception|failed|panic|crash)\<close>\<close>

definition pat_error :: rx where
  "pat_error =
     Grp (alts (map lit [''error'', ''exception'', ''failed'', ''panic'', ''crash'']))"

text \<open>\<^verbatim>\<open>(took|duration|elapsed|ms|seconds)\<close>\<close>

definition pat_performance :: rx where
  "pat_performance =
     Grp (alts (map lit [''took'', ''duration'', ''elapsed'', ''ms'', ''seconds'']))"

subsection \<open>Integers and timestamps\<close>

text \<open>
  \<^verbatim>\<open>int(s)\<close> for a string: surrounding whitespace and a sign are allowed, single underscores
  may separate digits, anything else is a \<^verbatim>\<open>ValueError\<close>; so is a numeral of more than
  4300 digits (the default limit of CPython from 3.11 on).
\<close>

fun int_body_ok :: "string \<Rightarrow> bool" where
  "int_body_ok [] = False"
| "int_body_ok [c] = is_digit c"
| "int_body_ok (c # d # r) =
     (is_digit c \<and> (if d = CHR ''_'' then int_body_ok r else int_body_ok (d # r)))"

definition digit_val :: "char \<Rightarrow> nat" where
  "digit_val c = (case map_of (zip ''0123456789'' [0 ..< 10]) c of Some n \<Rightarrow> n | None \<Rightarrow> 0)"

definition digits_val :: "string \<Rightarrow> nat" where
  "digits_val s = foldl (\<lambda>n c. 10 * n + digit_val c) 0 (filter is_digit s)"

definition py_int :: "string \<Rightarrow> exn + int" where
  "py_int s =
     (let t = strip s;
          (neg, body) = (case t of
                           c # r \<Rightarrow> if c = CHR ''-'' then (True, r)
                                    else if c = CHR ''+'' then (False, r)
                                    else (False, t)
                         | [] \<Rightarrow> (False, t))
      in if \<not> int_body_ok body \<or> 4300 < length (filter is_digit body) then Inl ValueError
         else Inr (if neg then - int (digits_val body) else int (digits_val body)))"

record datetime =
  year :: nat
  month :: nat
  day :: nat
  hour :: nat
  minute :: nat
  second :: nat
  microsecond :: nat

definition is_leap :: "nat \<Rightarrow> bool" where
  "is_leap y = (y mod 4 = 0 \<and> (y mod 100 \<noteq> 0 \<or> y mod 400 = 0))"

definition days_in_month :: "nat \<Rightarrow> nat \<Rightarrow> nat" where
  "days_in_month y m =
     (if m = 2 then (if is_leap y then 29 else 28)
      else if m \<in> {4, 6, 9, 11} then 30 else 31)"

text \<open>
  \<^verbatim>\<open>datetime.strptime\<close> turns the format into a regular expression (whitespace into
  \<^verbatim>\<open>\s+\<close>, each directive into a named group), matches it ignoring case at the start of
  the text, and raises \<^verbatim>\<open>ValueError\<close> when it does not match, when text remains after the
  match, or when the fields are no date or time. The directives below are those of the
  format list of \<^verbatim>\<open>_extract_timestamp\<close>; the model knows no other.
\<close>

definition nonzero_digit :: rx where
  "nonzero_digit = Chr (OneOf ''123456789'')"

fun directive :: "char \<Rightarrow> rx option" where
  "directive c =
    (if c = CHR ''Y'' then Some (Grp (rep 4 (Chr Digit)))
     else if c = CHR ''m'' then
       Some (Grp (alts [Cat (lit ''1'') (Chr (OneOf ''012'')), Cat (lit ''0'') nonzero_digit,
                        nonzero_digit]))
     else if c = CHR ''d'' then
       Some (Grp (alts [Cat (lit ''3'') (Chr (OneOf ''01'')), Cat (Chr (OneOf ''12'')) (Chr Digit),
                        Cat (lit ''0'') nonzero_digit, nonzero_digit,
                        Cat (lit '' '') nonzero_digit]))
     else if c = CHR ''H'' then
       Some (Grp (alts [Cat (lit ''2'') (Chr (OneOf ''0123'')), Cat (Chr (OneOf ''01'')) (Chr Digit),
                        Chr Digit]))
     else if c = CHR ''M'' then
       Some (Grp (alts [Cat (Chr (OneOf ''012345'')) (Chr Digit), Chr Digit]))
     else if c = CHR ''S'' then
       Some (Grp (alts [Cat (lit ''6'') (Chr (OneOf ''01'')),
                        Cat (Chr (OneOf ''012345'')) (Chr Digit), Chr Digit]))
     else if c = CHR ''f'' then Some (Grp (rep_upto 6 (Chr Digit)))
     else None)"

text \<open>The format as a pattern, with the directive letters in the order of their groups.\<close>

function format_rx :: "string \<Rightarrow> (rx \<times> string) option" where
  "format_rx [] = Some (Eps, [])"
| "format_rx (c # cs) =
     (if c = CHR ''%'' then
        (case cs of
           [] \<Rightarrow> None
         | k # ks \<Rightarrow>
             (case directive k of
                None \<Rightarrow> None
              | Some r \<Rightarrow> (case format_rx ks of
                            None \<Rightarrow> None
                          | Some (r', keys) \<Rightarrow> Some (Cat r r', k # keys))))
      else if is_space c then
        (case format_rx (dropWhile is_space cs) of
           None \<Rightarrow> None
         | Some (r', keys) \<Rightarrow> Some (Cat (Plus Space) r', keys))
      else
        (case format_rx cs of
           None \<Rightarrow> None
         | Some (r', keys) \<Rightarrow> Some (Cat (Chr (Ch c)) r', keys)))"
  by pat_completeness auto
termination
  by (relation "measure length") (auto simp: le_imp_less_Suc length_dropWhile_le)

definition field :: "(char \<times> string) list \<Rightarrow> char \<Rightarrow> nat \<Rightarrow> exn + nat" where
  "field found k dflt =
     (case map_of found k of
        None \<Rightarrow> Inr dflt
      | Some s \<Rightarrow> (case py_int s of Inl e \<Rightarrow> Inl e | Inr v \<Rightarrow> Inr (nat v)))"

definition make_datetime :: "(char \<times> string) list \<Rightarrow> exn + datetime" where
  "make_datetime found =
     (case field found (CHR ''Y'') 1900 of Inl e \<Rightarrow> Inl e | Inr y \<Rightarrow>
      case field found (CHR ''m'') 1 of Inl e \<Rightarrow> Inl e | Inr mo \<Rightarrow>
      case field found (CHR ''d'') 1 of Inl e \<Rightarrow> Inl e | Inr d \<Rightarrow>
      case field found (CHR ''H'') 0 of Inl e \<Rightarrow> Inl e | Inr h \<Rightarrow>
      case field found (CHR ''M'') 0 of Inl e \<Rightarrow> Inl e | Inr mi \<Rightarrow>
      case field found (CHR ''S'') 0 of Inl e \<Rightarrow> Inl e | Inr s \<Rightarrow>
      case (case map_of found (CHR ''f'') of
              None \<Rightarrow> Inr 0
            | Some fs \<Rightarrow> (case py_int (fs @ replicate (6 - length fs) (CHR ''0'')) of
                            Inl e \<Rightarrow> Inl e | Inr v \<Rightarrow> Inr (nat v)))
        of Inl e \<Rightarrow> Inl e | Inr us \<Rightarrow>
      if 1 \<le> y \<and> y \<le> 9999 \<and> 1 \<le> mo \<and> mo \<le> 12 \<and> 1 \<le> d \<and> d \<le> days_in_month y mo
         \<and> h \<le> 23 \<and> mi \<le> 59 \<and> s \<le> 59
      then Inr \<lparr>year = y, month = mo, day = d, hour = h, minute = mi, second = s,
                microsecond = us\<rparr>
      else Inl ValueError)"

definition strptime :: "string \<Rightarrow> string \<Rightarrow> exn + datetime" where
  "strptime data_string fmt =
     (case format_rx fmt of
        None \<Rightarrow> Inl ValueError
      | Some (r, keys) \<Rightarrow>
          (case rx_match True r data_string of
             [] \<Rightarrow> Inl ValueError
           | (g, rest) # _ \<Rightarrow>
               if rest \<noteq> [] then Inl ValueError else make_datetime (zip keys g)))"

subsection \<open>\<^verbatim>\<open>LogEntry\<close> and \<^verbatim>\<open>LogParser\<close>\<close>

record metadata =
  has_error :: bool
  has_performance :: bool
  line_length :: nat

record LogEntry =
  timestamp :: datetime
  level :: string
  component :: string
  message :: string
  raw_line :: string
  log_pid :: "int option"
  thread_id :: "string option"
  metadata :: "metadata option"

definition formats :: "string list" where
  "formats = [''%Y-%m-%dT%H:%M:%S.%fZ'', ''%Y-%m-%dT%H:%M:%S.%f'', ''%Y-%m-%d %H:%M:%S.%f'',
              ''%Y-%m-%dT%H:%M:%SZ'', ''%Y-%m-%dT%H:%M:%S'', ''%Y-%m-%d %H:%M:%S'']"

text \<open>
  The loop over the formats: the first format that parses returns; a \<^verbatim>\<open>ValueError\<close> goes on
  to the next format, any other exception leaves the loop. \<open>None\<close> is the loop running out.
\<close>

fun try_formats :: "string list \<Rightarrow> string \<Rightarrow> (exn + datetime) option" where
  "try_formats [] ts_str = None"
| "try_formats (fmt # fmts) ts_str =
     (case strptime ts_str fmt of
        Inr d \<Rightarrow> Some (Inr d)
      | Inl e \<Rightarrow> if e = ValueError then try_formats fmts ts_str else Some (Inl e))"

text \<open>\<^verbatim>\<open>match.group(1)\<close>: a pattern without a first group raises \<^verbatim>\<open>IndexError\<close>.\<close>

definition group1 :: "string list \<Rightarrow> exn + string" where
  "group1 g = (case g of [] \<Rightarrow> Inl IndexError | x # _ \<Rightarrow> Inr x)"

definition group2 :: "string list \<Rightarrow> exn + string" where
  "group2 g = (case g of x # y # _ \<Rightarrow> Inr y | _ \<Rightarrow> Inl IndexError)"

text \<open>The parameter \<open>now\<close> is what \<^verbatim>\<open>datetime.now()\<close> returns at the call.\<close>

definition extract_timestamp :: "datetime \<Rightarrow> string \<Rightarrow> exn + datetime" where
  "extract_timestamp now line =
     (case rx_search True pat_timestamp line of
        None \<Rightarrow> Inr now
      | Some (pre, g, rest) \<Rightarrow>
          (case group1 g of
             Inl e \<Rightarrow> Inl e
           | Inr ts_str \<Rightarrow> (case try_formats formats ts_str of
                              Some r \<Rightarrow> r
                            | None \<Rightarrow> Inr now)))"

definition extract_level :: "string \<Rightarrow> exn + string" where
  "extract_level line =
     (case rx_search True pat_level line of
        None \<Rightarrow> Inr ''INFO''
      | Some (pre, g, rest) \<Rightarrow> group1 g)"

definition extract_component :: "string \<Rightarrow> exn + string" where
  "extract_component line =
     (case rx_search True pat_component line of
        None \<Rightarrow> Inr ''unknown''
      | Some (pre, g, rest) \<Rightarrow> group1 g)"

definition extract_pid_thread :: "string \<Rightarrow> exn + (int option \<times> string option)" where
  "extract_pid_thread line =
     (case rx_search True pat_pid_thread line of
        None \<Rightarrow> Inr (None, None)
      | Some (pre, g, rest) \<Rightarrow>
          (case group1 g of
             Inl e \<Rightarrow> Inl e
           | Inr ds \<Rightarrow>
               (case py_int ds of
                  Inl e \<Rightarrow> if e = ValueError then Inr (None, None) else Inl e
                | Inr n \<Rightarrow> (case group2 g of
                              Inl e \<Rightarrow> if e = ValueError then Inr (None, None) else Inl e
                            | Inr t \<Rightarrow> Inr (Some n, Some t)))))"

text \<open>
  The message: the four patterns are deleted one after the other, each followed by
  \<^verbatim>\<open>strip()\<close>. \<^verbatim>\<open>re.sub\<close> gets the pattern text, not the compiled pattern, so it matches
  with regard to case.
\<close>

definition clean_message :: "string \<Rightarrow> string" where
  "clean_message line =
     foldl (\<lambda>message pattern. strip (rx_sub_empty False pattern message)) line
       [pat_timestamp, pat_level, pat_component, pat_pid_thread]"

definition parse_line :: "datetime \<Rightarrow> string \<Rightarrow> exn + LogEntry" where
  "parse_line now line =
     (case extract_timestamp now line of Inl e \<Rightarrow> Inl e | Inr ts \<Rightarrow>
     (case extract_level line of Inl e \<Rightarrow> Inl e | Inr lv \<Rightarrow>
     (case extract_component line of Inl e \<Rightarrow> Inl e | Inr cm \<Rightarrow>
     (case extract_pid_thread line of Inl e \<Rightarrow> Inl e | Inr (p, t) \<Rightarrow>
        Inr \<lparr>timestamp = ts, level = lv, component = cm, message = clean_message line,
             raw_line = line, log_pid = p, thread_id = t,
             metadata = Some \<lparr>has_error = (rx_search True pat_error line \<noteq> None),
                               has_performance = (rx_search True pat_performance line \<noteq> None),
                               line_length = length line\<rparr>\<rparr>))))"

subsection \<open>\<^verbatim>\<open>LogMonitor\<close>: counters, bounded buffers, files\<close>

text \<open>
  \<^verbatim>\<open>defaultdict(int)\<close> as an association list in insertion order: \<^verbatim>\<open>d[k] += 1\<close> adds one
  to the entry of \<open>k\<close>, creating it from 0, and \<^verbatim>\<open>d[k] = v\<close> overwrites or appends.
\<close>

fun incr :: "string \<Rightarrow> (string \<times> int) list \<Rightarrow> (string \<times> int) list" where
  "incr k [] = [(k, 1)]"
| "incr k ((k', v) # kvs) = (if k = k' then (k', v + 1) # kvs else (k', v) # incr k kvs)"

fun dict_set :: "'k \<Rightarrow> 'v \<Rightarrow> ('k \<times> 'v) list \<Rightarrow> ('k \<times> 'v) list" where
  "dict_set k v [] = [(k, v)]"
| "dict_set k v ((k', v') # kvs) = (if k = k' then (k', v) # kvs else (k', v') # dict_set k v kvs)"

definition stat :: "(string \<times> int) list \<Rightarrow> string \<Rightarrow> int" where
  "stat d k = (case map_of d k of None \<Rightarrow> 0 | Some v \<Rightarrow> v)"

text \<open>The sum of the counters whose name starts with \<^verbatim>\<open>level_\<close>.\<close>

definition level_sum :: "(string \<times> int) list \<Rightarrow> int" where
  "level_sum d = sum_list (map snd (filter (\<lambda>kv. prefix ''level_'' (fst kv)) d))"

text \<open>\<^verbatim>\<open>deque(maxlen=n).append(x)\<close>: the element goes to the right end; a deque that is then
  longer than \<open>n\<close> drops its leftmost element.\<close>

definition deque_append :: "nat \<Rightarrow> 'a list \<Rightarrow> 'a \<Rightarrow> 'a list" where
  "deque_append maxlen xs x = (let ys = xs @ [x] in if maxlen < length ys then tl ys else ys)"

datatype error_data =
  ErrorData datetime string string string "int option" "metadata option"

datatype log_data =
  LogData datetime string string string "int option"

datatype console_line =
  ProcessingError exn
| ProcessingLine string
| VerboseEntry datetime string string string
| ScanError exn
| ProcessesError exn
| LogFileNotFound

text \<open>
  The monitor object together with the files it writes. \<open>verbose\<close> and \<open>start_time\<close> are
  attributes that only \<^verbatim>\<open>main\<close> sets, so they may be missing (\<^verbatim>\<open>hasattr\<close>). The files are
  the lists of the records written to them; \<open>stats_file\<close> is overwritten at each save.
\<close>

record monitor =
  running :: bool
  stats :: "(string \<times> int) list"
  recent_entries :: "LogEntry list"
  error_buffer :: "LogEntry list"
  verbose :: "bool option"
  start_time :: "int option"
  errors_file :: "error_data list"
  monitor_log :: "log_data list"
  stats_file :: "((string \<times> int) list \<times> datetime \<times> int) option"
  console :: "console_line list"

definition init_monitor :: monitor where
  "init_monitor = \<lparr>running = False, stats = [], recent_entries = [], error_buffer = [],
                    verbose = None, start_time = None, errors_file = [], monitor_log = [],
                    stats_file = None, console = []\<rparr>"

text \<open>
  What the world does at one call: the clock, and whether opening and writing each of the
  files succeeds (\<^verbatim>\<open>open\<close> and \<^verbatim>\<open>write\<close> raise \<^verbatim>\<open>OSError\<close> otherwise).
\<close>

record env =
  now :: datetime
  errors_writable :: bool
  monitor_writable :: bool
  stats_writable :: bool
  clock :: int

definition log_error :: "env \<Rightarrow> monitor \<Rightarrow> LogEntry \<Rightarrow> exn + monitor" where
  "log_error ev m entry =
     (if errors_writable ev
      then Inr (m\<lparr>errors_file := errors_file m @
                    [ErrorData (timestamp entry) (level entry) (component entry) (message entry)
                       (log_pid entry) (metadata entry)]\<rparr>)
      else Inl OSError)"

definition log_to_monitor :: "env \<Rightarrow> monitor \<Rightarrow> LogEntry \<Rightarrow> exn + monitor" where
  "log_to_monitor ev m entry =
     (if monitor_writable ev
      then Inr (m\<lparr>monitor_log := monitor_log m @
                    [LogData (timestamp entry) (level entry) (component entry)
                       (take 200 (message entry)) (log_pid entry)]\<rparr>)
      else Inl OSError)"

text \<open>
  \<^verbatim>\<open>entry.level in ['ERROR', 'FATAL'] or entry.metadata.get('has_error')\<close>: the second
  operand is evaluated only when the first is false, and fails on an entry without metadata.
\<close>

definition is_error_entry :: "LogEntry \<Rightarrow> exn + bool" where
  "is_error_entry entry =
     (if level entry \<in> set [''ERROR'', ''FATAL''] then Inr True
      else (case metadata entry of None \<Rightarrow> Inl AttributeError | Some md \<Rightarrow> Inr (has_error md)))"

text \<open>
  The body of the \<^verbatim>\<open>try\<close> of \<^verbatim>\<open>_process_log_line\<close>. An exception leaves the body with the
  monitor as it is at that point: the result is the monitor and the exception, if any.
\<close>

definition record_entry :: "monitor \<Rightarrow> LogEntry \<Rightarrow> monitor" where
  "record_entry m entry =
     (let m1 = m\<lparr>recent_entries := deque_append 1000 (recent_entries m) entry\<rparr>;
          m2 = m1\<lparr>stats := incr ''total_lines'' (stats m1)\<rparr>;
          m3 = m2\<lparr>stats := incr (''level_'' @ level entry) (stats m2)\<rparr>
      in m3\<lparr>stats := incr (''component_'' @ component entry) (stats m3)\<rparr>)"

definition handle_errors :: "env \<Rightarrow> monitor \<Rightarrow> LogEntry \<Rightarrow> monitor \<times> exn option" where
  "handle_errors ev m entry =
     (case is_error_entry entry of
        Inl e \<Rightarrow> (m, Some e)
      | Inr b \<Rightarrow>
          if b then
            (let m1 = m\<lparr>error_buffer := deque_append 100 (error_buffer m) entry\<rparr>;
                 m2 = m1\<lparr>stats := incr ''total_errors'' (stats m1)\<rparr>
             in case log_error ev m2 entry of Inl e \<Rightarrow> (m2, Some e) | Inr m3 \<Rightarrow> (m3, None))
          else (m, None))"

definition try_body :: "env \<Rightarrow> monitor \<Rightarrow> string \<Rightarrow> monitor \<times> exn option" where
  "try_body ev m line =
     (case parse_line (now ev) line of
        Inl e \<Rightarrow> (m, Some e)
      | Inr entry \<Rightarrow>
          (case handle_errors ev (record_entry m entry) entry of
             (m1, Some e) \<Rightarrow> (m1, Some e)
           | (m1, None) \<Rightarrow>
               (case log_to_monitor ev m1 entry of
                  Inl e \<Rightarrow> (m1, Some e)
                | Inr m2 \<Rightarrow>
                    if verbose m2 = Some True
                    then (m2\<lparr>console := console m2 @
                               [VerboseEntry (timestamp entry) (level entry) (component entry)
                                  (take 100 (message entry))]\<rparr>, None)
                    else (m2, None))))"

definition process_log_line :: "env \<Rightarrow> monitor \<Rightarrow> string \<Rightarrow> monitor" where
  "process_log_line ev m line =
     (if line = [] then m
      else (case try_body ev m line of
              (m', None) \<Rightarrow> m'
            | (m', Some e) \<Rightarrow>
                m'\<lparr>console := console m' @ [ProcessingError e, ProcessingLine line]\<rparr>))"

text \<open>A sequence of lines, each with the state of the world at its call.\<close>

fun process_lines :: "monitor \<Rightarrow> (env \<times> string) list \<Rightarrow> monitor" where
  "process_lines m [] = m"
| "process_lines m ((ev, line) # rest) = process_lines (process_log_line ev m line) rest"

subsection \<open>Auxiliary notions for the proofs\<close>

text \<open>A lower bound on the number of groups that a match of the pattern captures.\<close>

fun min_groups :: "rx \<Rightarrow> nat" where
  "min_groups Eps = 0"
| "min_groups (Chr a) = 0"
| "min_groups (Cat r1 r2) = min_groups r1 + min_groups r2"
| "min_groups (Alt r1 r2) = min (min_groups r1) (min_groups r2)"
| "min_groups (Opt r) = 0"
| "min_groups (Plus a) = 0"
| "min_groups (Grp r) = Suc (min_groups r)"

text \<open>
  The condition under which an entry counts as an error, in the words of the specification:
  its level is \<^verbatim>\<open>ERROR\<close> or \<^verbatim>\<open>FATAL\<close>, or its \<^verbatim>\<open>has_error\<close> flag is set.
\<close>

definition error_trigger :: "LogEntry \<Rightarrow> bool" where
  "error_trigger entry =
     (level entry = ''ERROR'' \<or> level entry = ''FATAL'' \<or>
      (case metadata entry of Some md \<Rightarrow> has_error md | None \<Rightarrow> False))"

text \<open>
  The entries that a sequence of lines gives rise to: one for each non-empty line that the
  parser accepts, in the order of the lines.
\<close>

definition parsed :: "env \<times> string \<Rightarrow> LogEntry list" where
  "parsed x = (case x of (ev, line) \<Rightarrow>
     if line = [] then []
     else (case parse_line (now ev) line of Inr e \<Rightarrow> [e] | Inl _ \<Rightarrow> []))"

definition entries_of :: "(env \<times> string) list \<Rightarrow> LogEntry list" where
  "entries_of xs = concat (map parsed xs)"

subsection \<open>Sample inputs\<close>

text \<open>A state of the world in which every file can be written.\<close>

definition sample_env :: env where
  "sample_env = \<lparr>now = \<lparr>year = 2026, month = 1, day = 1, hour = 0, minute = 0, second = 0,
                         microsecond = 0\<rparr>,
                 errors_writable = True, monitor_writable = True, stats_writable = True,
                 clock = 0\<rparr>"

section \<open>Lemmas\<close>

subsection \<open>The parser returns an entry for every line\<close>

lemma rx_match_groups:
  "(g, s') \<in> set (rx_match ic r s) \<Longrightarrow> min_groups r \<le> length g"
proof (induction r arbitrary: g s s')
  case (Cat r1 r2)
  then show ?case by (fastforce simp: add_mono)
next
  case (Alt r1 r2)
  then show ?case by (fastforce simp: min_le_iff_disj)
next
  case (Grp r)
  then show ?case by fastforce
qed (auto split: list.splits if_splits)

lemma rx_search_match:
  "rx_search ic r s = Some (pre, g, rest) \<Longrightarrow>
     \<exists>s0. s = pre @ s0 \<and> rx_match ic r s0 \<noteq> [] \<and> hd (rx_match ic r s0) = (g, rest)"
proof (induction s arbitrary: pre)
  case Nil
  then show ?case by (auto split: list.splits)
next
  case (Cons c cs)
  show ?case
  proof (cases "rx_match ic r (c # cs)")
    case Nil
    with Cons.prems obtain pre' where p: "rx_search ic r cs = Some (pre', g, rest)" "pre = c # pre'"
      by (auto split: option.splits)
    from Cons.IH[OF p(1)] p(2) show ?thesis by auto
  next
    case (Cons a list)
    with Cons.prems show ?thesis by (cases a) auto
  qed
qed

lemma rx_search_groups:
  "rx_search ic r s = Some (pre, g, rest) \<Longrightarrow> min_groups r \<le> length g"
proof -
  assume "rx_search ic r s = Some (pre, g, rest)"
  then obtain s0 where "rx_match ic r s0 \<noteq> []" "hd (rx_match ic r s0) = (g, rest)"
    using rx_search_match by blast
  then have "(g, rest) \<in> set (rx_match ic r s0)" by (metis hd_in_set)
  then show ?thesis by (rule rx_match_groups)
qed

lemma min_groups_pats:
  "min_groups pat_timestamp = 1" "min_groups pat_level = 1" "min_groups pat_component = 1"
  "min_groups pat_pid_thread = 2"
  by (simp_all add: pat_timestamp_def pat_level_def pat_component_def pat_pid_thread_def
        level_names_def d2_def eval_nat_numeral)

lemma group1_ok: "1 \<le> length g \<Longrightarrow> \<exists>x. group1 g = Inr x \<and> x = hd g"
  by (cases g) (auto simp: group1_def)

lemma group2_ok: "2 \<le> length g \<Longrightarrow> \<exists>x. group2 g = Inr x"
  by (cases g; cases "tl g") (auto simp: group2_def)

lemma py_int_error: "py_int s = Inl e \<Longrightarrow> e = ValueError"
  by (auto simp: py_int_def Let_def split: if_splits prod.splits)

lemma field_error: "field found k d = Inl e \<Longrightarrow> e = ValueError"
  by (auto simp: field_def split: option.splits sum.splits dest: py_int_error)

lemma make_datetime_error: "make_datetime found = Inl e \<Longrightarrow> e = ValueError"
  unfolding make_datetime_def
  by (auto split: sum.splits option.splits if_splits dest: field_error py_int_error)

lemma strptime_error: "strptime s fmt = Inl e \<Longrightarrow> e = ValueError"
  by (auto simp: strptime_def split: option.splits list.splits if_splits prod.splits
       dest: make_datetime_error)

lemma try_formats_ok: "try_formats fmts ts = Some r \<Longrightarrow> \<exists>d. r = Inr d"
proof (induction fmts)
  case Nil
  then show ?case by simp
next
  case (Cons f fs)
  show ?case
  proof (cases "strptime ts f")
    case (Inl e)
    then have "e = ValueError" by (rule strptime_error)
    with Inl Cons show ?thesis by simp
  next
    case (Inr d)
    with Cons.prems show ?thesis by auto
  qed
qed

lemma extract_timestamp_total: "\<exists>d. extract_timestamp t0 line = Inr d"
proof (cases "rx_search True pat_timestamp line")
  case None
  then show ?thesis by (simp add: extract_timestamp_def)
next
  case (Some a)
  then obtain pre g rest where s: "rx_search True pat_timestamp line = Some (pre, g, rest)"
    by (cases a) auto
  from rx_search_groups[OF s] have "1 \<le> length g" by (simp add: min_groups_pats)
  then obtain x where "group1 g = Inr x" using group1_ok by blast
  with s show ?thesis
    by (auto simp: extract_timestamp_def split: option.splits dest: try_formats_ok)
qed

lemma extract_level_total: "\<exists>l. extract_level line = Inr l"
proof (cases "rx_search True pat_level line")
  case None
  then show ?thesis by (simp add: extract_level_def)
next
  case (Some a)
  then obtain pre g rest where s: "rx_search True pat_level line = Some (pre, g, rest)"
    by (cases a) auto
  from rx_search_groups[OF s] have "1 \<le> length g" by (simp add: min_groups_pats)
  then obtain x where "group1 g = Inr x" using group1_ok by blast
  with s show ?thesis by (auto simp: extract_level_def)
qed

lemma extract_component_total: "\<exists>l. extract_component line = Inr l"
proof (cases "rx_search True pat_component line")
  case None
  then show ?thesis by (simp add: extract_component_def)
next
  case (Some a)
  then obtain pre g rest where s: "rx_search True pat_component line = Some (pre, g, rest)"
    by (cases a) auto
  from rx_search_groups[OF s] have "1 \<le> length g" by (simp add: min_groups_pats)
  then obtain x where "group1 g = Inr x" using group1_ok by blast
  with s show ?thesis by (auto simp: extract_component_def)
qed

lemma extract_pid_thread_total: "\<exists>p. extract_pid_thread line = Inr p"
proof (cases "rx_search True pat_pid_thread line")
  case None
  then show ?thesis by (simp add: extract_pid_thread_def)
next
  case (Some a)
  then obtain pre g rest where s: "rx_search True pat_pid_thread line = Some (pre, g, rest)"
    by (cases a) auto
  from rx_search_groups[OF s] have l: "2 \<le> length g" by (simp add: min_groups_pats)
  then obtain x where x: "group1 g = Inr x" using group1_ok[of g] by auto
  from l obtain y where y: "group2 g = Inr y" using group2_ok by blast
  show ?thesis using s x y
    by (cases "py_int x") (auto simp: extract_pid_thread_def dest: py_int_error)
qed

lemma parse_line_total: "\<exists>e. parse_line t0 line = Inr e"
proof -
  obtain ts where 1: "extract_timestamp t0 line = Inr ts" using extract_timestamp_total by blast
  obtain lv where 2: "extract_level line = Inr lv" using extract_level_total by blast
  obtain cm where 3: "extract_component line = Inr cm" using extract_component_total by blast
  obtain p where 4: "extract_pid_thread line = Inr p" using extract_pid_thread_total by blast
  show ?thesis by (cases p) (simp add: parse_line_def 1 2 3 4)
qed

subsection \<open>What one processed line changes\<close>

lemma parse_line_metadata: "parse_line t0 line = Inr e \<Longrightarrow> metadata e \<noteq> None"
  by (auto simp: parse_line_def split: sum.splits prod.splits)

lemma is_error_entry_parsed:
  "parse_line t0 line = Inr e \<Longrightarrow> is_error_entry e = Inr (error_trigger e)"
  by (drule parse_line_metadata) (auto simp: is_error_entry_def error_trigger_def)

lemma handle_errors_parsed:
  assumes "parse_line t0 line = Inr e"
  shows "recent_entries (fst (handle_errors ev m e)) = recent_entries m"
    and "error_buffer (fst (handle_errors ev m e)) =
           (if error_trigger e then deque_append 100 (error_buffer m) e else error_buffer m)"
    and "stats (fst (handle_errors ev m e)) =
           (if error_trigger e then incr ''total_errors'' (stats m) else stats m)"
    and "errors_file (fst (handle_errors ev m e)) =
           (if error_trigger e \<and> errors_writable ev
            then errors_file m @ [ErrorData (timestamp e) (level e) (component e) (message e)
                                    (log_pid e) (metadata e)]
            else errors_file m)"
  using is_error_entry_parsed[OF assms]
  by (simp_all add: handle_errors_def log_error_def Let_def)

lemma record_entry_fields:
  "recent_entries (record_entry m e) = deque_append 1000 (recent_entries m) e"
  "error_buffer (record_entry m e) = error_buffer m"
  "errors_file (record_entry m e) = errors_file m"
  "stats (record_entry m e) =
     incr (''component_'' @ component e) (incr (''level_'' @ level e)
       (incr ''total_lines'' (stats m)))"
  by (simp_all add: record_entry_def Let_def)

lemma try_body_fields:
  assumes "parse_line (now ev) line = Inr e"
  shows "recent_entries (fst (try_body ev m line)) = recent_entries (fst (handle_errors ev (record_entry m e) e))"
    and "error_buffer (fst (try_body ev m line)) = error_buffer (fst (handle_errors ev (record_entry m e) e))"
    and "stats (fst (try_body ev m line)) = stats (fst (handle_errors ev (record_entry m e) e))"
    and "errors_file (fst (try_body ev m line)) = errors_file (fst (handle_errors ev (record_entry m e) e))"
  using assms
  by (auto simp: try_body_def log_to_monitor_def split: prod.splits option.splits sum.splits)

lemma process_fields:
  "recent_entries (process_log_line ev m line) = (if line = [] then recent_entries m else recent_entries (fst (try_body ev m line)))"
  "error_buffer (process_log_line ev m line) = (if line = [] then error_buffer m else error_buffer (fst (try_body ev m line)))"
  "stats (process_log_line ev m line) = (if line = [] then stats m else stats (fst (try_body ev m line)))"
  "errors_file (process_log_line ev m line) = (if line = [] then errors_file m else errors_file (fst (try_body ev m line)))"
  by (auto simp: process_log_line_def split: prod.splits option.splits)

lemma process_nonempty:
  assumes "line \<noteq> []" "parse_line (now ev) line = Inr e"
  shows "recent_entries (process_log_line ev m line) = deque_append 1000 (recent_entries m) e"
    and "error_buffer (process_log_line ev m line) =
           (if error_trigger e then deque_append 100 (error_buffer m) e else error_buffer m)"
    and "stats (process_log_line ev m line) =
           (let d = incr (''component_'' @ component e) (incr (''level_'' @ level e)
                      (incr ''total_lines'' (stats m)))
            in if error_trigger e then incr ''total_errors'' d else d)"
    and "errors_file (process_log_line ev m line) =
           (if error_trigger e \<and> errors_writable ev
            then errors_file m @ [ErrorData (timestamp e) (level e) (component e) (message e)
                                    (log_pid e) (metadata e)]
            else errors_file m)"
  using assms(1)
  by (simp_all add: process_fields try_body_fields[OF assms(2)]
        handle_errors_parsed[OF assms(2)] record_entry_fields Let_def)

lemma stat_incr: "stat (incr k d) k' = (if k' = k then stat d k + 1 else stat d k')"
  by (induction d) (auto simp: stat_def)

lemma level_sum_incr:
  "level_sum (incr k d) = (if prefix ''level_'' k then level_sum d + 1 else level_sum d)"
  by (induction d) (auto simp: level_sum_def)

lemma deque_append_drop:
  "deque_append n (drop (length ys - n) ys) x = drop (length (ys @ [x]) - n) (ys @ [x])"
proof (cases "n \<le> length ys")
  case False
  then show ?thesis by (simp add: deque_append_def Let_def)
next
  case True
  show ?thesis
  proof (cases "n = 0")
    case True
    then show ?thesis by (simp add: deque_append_def Let_def)
  next
    case False
    with True have ne: "drop (length ys - n) ys \<noteq> []" by simp
    from True have "Suc (length ys) - n = Suc (length ys - n)" by simp
    with True False ne show ?thesis
      by (simp add: deque_append_def Let_def tl_append2 tl_drop drop_Suc)
  qed
qed

lemma deque_append_length: "length xs \<le> n \<Longrightarrow> length (deque_append n xs x) \<le> n"
  by (auto simp: deque_append_def Let_def)

subsection \<open>What a sequence of lines changes\<close>

lemma process_recent:
  "recent_entries (process_log_line ev m line) =
     (case parsed (ev, line) of [] \<Rightarrow> recent_entries m
      | e # _ \<Rightarrow> deque_append 1000 (recent_entries m) e)"
proof (cases "line = []")
  case True
  then show ?thesis by (simp add: process_log_line_def parsed_def)
next
  case False
  obtain e where e: "parse_line (now ev) line = Inr e" using parse_line_total by blast
  with False show ?thesis by (simp add: process_nonempty(1)[OF False e] parsed_def)
qed

lemma process_errbuf:
  "error_buffer (process_log_line ev m line) =
     (case filter error_trigger (parsed (ev, line)) of [] \<Rightarrow> error_buffer m
      | e # _ \<Rightarrow> deque_append 100 (error_buffer m) e)"
proof (cases "line = []")
  case True
  then show ?thesis by (simp add: process_log_line_def parsed_def)
next
  case False
  obtain e where e: "parse_line (now ev) line = Inr e" using parse_line_total by blast
  with False show ?thesis by (simp add: process_nonempty(2)[OF False e] parsed_def)
qed

lemma parsed_length: "length (parsed x) \<le> 1"
  by (cases x) (auto simp: parsed_def split: sum.splits)

lemma recent_entries_lines:
  "recent_entries m = drop (length es - 1000) es \<Longrightarrow>
   recent_entries (process_lines m xs) =
     drop (length (es @ entries_of xs) - 1000) (es @ entries_of xs)"
proof (induction xs arbitrary: m es)
  case Nil
  then show ?case by (simp add: entries_of_def)
next
  case (Cons x xs)
  obtain ev line where x: "x = (ev, line)" by (cases x)
  show ?case
  proof (cases "parsed (ev, line)")
    case Nil
    with Cons x show ?thesis by (simp add: process_recent entries_of_def)
  next
    case (Cons e l)
    with parsed_length[of "(ev, line)"] have l: "l = []" by simp
    have "recent_entries (process_log_line ev m line) = drop (length (es @ [e]) - 1000) (es @ [e])"
      using Cons Cons.prems deque_append_drop[of 1000 es e] by (simp add: process_recent)
    from Cons.IH[OF this] x Cons l show ?thesis by (simp add: entries_of_def)
  qed
qed

lemma error_buffer_lines:
  "error_buffer m = drop (length es - 100) es \<Longrightarrow>
   error_buffer (process_lines m xs) =
     drop (length (es @ filter error_trigger (entries_of xs)) - 100)
          (es @ filter error_trigger (entries_of xs))"
proof (induction xs arbitrary: m es)
  case Nil
  then show ?case by (simp add: entries_of_def)
next
  case (Cons x xs)
  obtain ev line where x: "x = (ev, line)" by (cases x)
  show ?case
  proof (cases "filter error_trigger (parsed (ev, line))")
    case Nil
    with Cons x show ?thesis by (simp add: process_errbuf entries_of_def)
  next
    case (Cons e l)
    have "length (filter error_trigger (parsed (ev, line))) \<le> 1"
      using parsed_length[of "(ev, line)"] length_filter_le[of error_trigger "parsed (ev, line)"]
      by linarith
    with Cons have l: "l = []" by simp
    have "error_buffer (process_log_line ev m line) = drop (length (es @ [e]) - 100) (es @ [e])"
      using Cons Cons.prems deque_append_drop[of 100 es e] by (simp add: process_errbuf)
    from Cons.IH[OF this] x Cons l show ?thesis by (simp add: entries_of_def)
  qed
qed

lemma entries_of_nonempty_lines:
  "\<forall>x \<in> set xs. snd x \<noteq> [] \<Longrightarrow> length (entries_of xs) = length xs"
proof (induction xs)
  case Nil
  then show ?case by (simp add: entries_of_def)
next
  case (Cons x xs)
  obtain ev line where x: "x = (ev, line)" by (cases x)
  obtain e where "parse_line (now ev) line = Inr e" using parse_line_total by blast
  with Cons x show ?case by (simp add: entries_of_def parsed_def)
qed

lemma prefix_level_facts:
  "prefix ''level_'' (''level_'' @ x)"
  "\<not> prefix ''level_'' ''total_lines''"
  "\<not> prefix ''level_'' ''total_errors''"
  "\<not> prefix ''level_'' (''component_'' @ x)"
  by (simp_all add: prefix_def)

lemma process_counters:
  "level_sum (stats (process_log_line ev m line)) =
     level_sum (stats m) + int (length (parsed (ev, line)))
   \<and> stat (stats (process_log_line ev m line)) ''total_lines'' =
     stat (stats m) ''total_lines'' + int (length (parsed (ev, line)))"
proof (cases "line = []")
  case True
  then show ?thesis by (simp add: process_log_line_def parsed_def)
next
  case False
  obtain e where e: "parse_line (now ev) line = Inr e" using parse_line_total by blast
  with False show ?thesis
    by (simp add: process_nonempty(3)[OF False e] parsed_def Let_def level_sum_incr stat_incr
          prefix_level_facts)
qed

lemma counters_lines:
  "level_sum (stats (process_lines m xs)) = level_sum (stats m) + int (length (entries_of xs))
   \<and> stat (stats (process_lines m xs)) ''total_lines'' =
       stat (stats m) ''total_lines'' + int (length (entries_of xs))"
proof (induction xs arbitrary: m)
  case Nil
  then show ?case by (simp add: entries_of_def)
next
  case (Cons x xs)
  obtain ev line where x: "x = (ev, line)" by (cases x)
  show ?case using Cons[of "process_log_line ev m line"] process_counters[of ev m line] x
    by (simp add: entries_of_def)
qed

section \<open>Properties\<close>

text \<open>
  C10. Processing the empty line changes nothing: no counter, neither buffer, neither file,
  no console output; the monitor is returned as it was, without parsing.
\<close>

theorem process_empty_line_noop: "process_log_line ev m [] = m"
  by (simp add: process_log_line_def)

text \<open>
  C4. After any sequence of lines has been processed by a fresh monitor, the counter
  \<^verbatim>\<open>total_lines\<close> equals the sum of the \<^verbatim>\<open>level_\<close> counters, and both equal the number
  of entries that the lines gave rise to. The sequence is arbitrary, so the equation holds
  after every line of it.
\<close>

theorem total_lines_is_level_sum:
  "stat (stats (process_lines init_monitor xs)) ''total_lines'' =
     level_sum (stats (process_lines init_monitor xs))
   \<and> stat (stats (process_lines init_monitor xs)) ''total_lines'' = int (length (entries_of xs))"
  using counters_lines[of init_monitor xs]
  by (simp add: init_monitor_def level_sum_def stat_def)

text \<open>
  C5. The two buffers of a fresh monitor hold, in insertion order, the last 1000 entries and
  the last 100 error entries of those processed so far; they never hold more than 1000 and
  100 elements, and older elements are dropped without an error. After 1500 non-empty lines
  \<^verbatim>\<open>recent_entries\<close> has exactly 1000 elements: the entries 501 to 1500.
\<close>

theorem bounded_buffers:
  "recent_entries (process_lines init_monitor xs) =
     drop (length (entries_of xs) - 1000) (entries_of xs)
   \<and> error_buffer (process_lines init_monitor xs) =
       drop (length (filter error_trigger (entries_of xs)) - 100)
            (filter error_trigger (entries_of xs))
   \<and> length (recent_entries (process_lines init_monitor xs)) \<le> 1000
   \<and> length (error_buffer (process_lines init_monitor xs)) \<le> 100
   \<and> ((\<forall>x \<in> set xs. snd x \<noteq> []) \<and> length xs = 1500 \<longrightarrow>
        length (entries_of xs) = 1500
        \<and> length (recent_entries (process_lines init_monitor xs)) = 1000
        \<and> recent_entries (process_lines init_monitor xs) = drop 500 (entries_of xs))"
proof -
  have r: "recent_entries (process_lines init_monitor xs) =
     drop (length (entries_of xs) - 1000) (entries_of xs)"
    using recent_entries_lines[of init_monitor "[]" xs] by (simp add: init_monitor_def)
  have e: "error_buffer (process_lines init_monitor xs) =
       drop (length (filter error_trigger (entries_of xs)) - 100)
            (filter error_trigger (entries_of xs))"
    using error_buffer_lines[of init_monitor "[]" xs] by (simp add: init_monitor_def)
  have "(\<forall>x \<in> set xs. snd x \<noteq> []) \<and> length xs = 1500 \<longrightarrow>
        length (entries_of xs) = 1500
        \<and> length (recent_entries (process_lines init_monitor xs)) = 1000
        \<and> recent_entries (process_lines init_monitor xs) = drop 500 (entries_of xs)"
    using entries_of_nonempty_lines[of xs] by (auto simp: r)
  moreover have "length (recent_entries (process_lines init_monitor xs)) \<le> 1000"
    unfolding r by simp
  moreover have "length (error_buffer (process_lines init_monitor xs)) \<le> 100"
    unfolding e by simp
  ultimately show ?thesis using r e by blast
qed

theorem bounded_buffers_witness:
  "list_all (\<lambda>x. snd x \<noteq> []) (replicate 1500 (sample_env, ''x''))
   \<and> length (replicate 1500 (sample_env, ''x'')) = 1500
   \<and> length (recent_entries (process_lines init_monitor (replicate 1500 (sample_env, ''x'')))) = 1000
   \<and> recent_entries (process_lines init_monitor (replicate 1500 (sample_env, ''x''))) =
       drop 500 (entries_of (replicate 1500 (sample_env, ''x'')))"
  using bounded_buffers[of "replicate 1500 (sample_env, ''x'')"] by (simp add: list_all_iff)

end
